theory Spec2Isabelle
  imports Main
begin

section \<open>Data model of the stream watcher (streamer.go)\<close>

subsection \<open>Errors\<close>

text \<open>
  Go's \<open>error\<close> values that the watcher meets. \<open>EOF\<close> and \<open>ErrUnexpectedEOF\<close> are the
  sentinels of package io that \<open>proxyEvents\<close> compares against; \<open>Canceled\<close> and
  \<open>DeadlineExceeded\<close> are the two values \<open>ctx.Err()\<close> can return; \<open>DecodeError\<close> stands
  for every other error of \<open>json.Decoder.Decode\<close> (a syntax error, a type mismatch, an error
  of the underlying reader). \<open>NumError\<close> is the error of \<open>strconv.Atoi\<close>, \<open>Wrap\<close> is
  \<open>errors.Wrap\<close> of github.com/pkg/errors applied to a non-nil error, \<open>Errorf\<close> is
  \<open>errors.Errorf\<close> with its message already formatted. An absent (nil) error is \<open>None\<close> of
  \<open>error option\<close>.
\<close>

datatype error =
    EOF
  | ErrUnexpectedEOF
  | Canceled
  | DeadlineExceeded
  | DecodeError string
  | ErrSyntax
  | ErrRange
  | NumError string string error
  | Wrap error string
  | Errorf string

text \<open>The value of \<open>ctx.Err()\<close> at one moment: \<open>None\<close> while the context is live.\<close>

type_synonym ctx = "error option"

subsection \<open>Events\<close>

text \<open>
  Modelled from the spec: the declarations of \<open>endpoints\<close>, \<open>metadata\<close>, \<open>subset\<close>, \<open>port\<close>,
  \<open>address\<close> and \<open>watchResult\<close> are not in streamer.go; the fields are those of the wire
  format, of the composite literals in streamer_test.go and of the uses in \<open>proxyEvents\<close>.
\<close>

record metadata =
  ResourceVersion :: string

record port =
  Port :: int
  Name :: string

record address =
  IP :: string

record subset =
  Addresses :: "address list"
  Ports :: "port list"

record endpoints =
  Metadata :: metadata
  Subsets :: "subset list"

type_synonym eventType = string

definition added :: eventType where "added = ''ADDED''"
definition modified :: eventType where "modified = ''MODIFIED''"
definition deleted :: eventType where "deleted = ''DELETED''"
definition failed :: eventType where "failed = ''ERROR''"

record event =
  Type :: eventType
  Object :: endpoints

record watchResult =
  ep :: "event option"
  err :: "error option"

subsection \<open>strconv.Atoi\<close>

text \<open>
  \<open>strconv.Atoi\<close> of Go's standard library for a 64-bit \<open>int\<close>, that is
  \<open>ParseInt(s, 10, 0)\<close>. An optional sign is taken off; \<open>parseUint\<close> then reads the rest
  from left to right as \<open>ParseUint\<close> does: a character that is no decimal digit is a
  syntax error, a value that leaves the range of \<open>uint64\<close> is a range error, whichever
  comes first. An empty string, or a sign with nothing after it, is a syntax error, and a
  value outside the range of \<open>int\<close> is a range error. The result is the pair (value,
  error) of the Go function, as a sum.
\<close>

definition isDigit :: "char \<Rightarrow> bool" where
  "isDigit ch = (48 \<le> (of_char ch :: nat) \<and> (of_char ch :: nat) \<le> 57)"

fun parseUint :: "nat \<Rightarrow> string \<Rightarrow> error + nat" where
  "parseUint n [] = Inr n"
| "parseUint n (ch # s) =
     (if isDigit ch then
        (let n1 = n * 10 + (of_char ch - 48) in
         if 2 ^ 64 \<le> n1 then Inl ErrRange else parseUint n1 s)
      else Inl ErrSyntax)"

definition Atoi :: "string \<Rightarrow> error + int" where
  "Atoi s =
     (case s of
        [] \<Rightarrow> Inl (NumError ''Atoi'' s ErrSyntax)
      | s0 # rest \<Rightarrow>
          (let ds = (if s0 = CHR ''-'' \<or> s0 = CHR ''+'' then rest else s) in
           if ds = [] then Inl (NumError ''Atoi'' s ErrSyntax)
           else
             (case parseUint 0 ds of
                Inl e \<Rightarrow> Inl (NumError ''Atoi'' s e)
              | Inr un \<Rightarrow>
                  (if s0 = CHR ''-'' then
                     (if 2 ^ 63 < un then Inl (NumError ''Atoi'' s ErrRange)
                      else Inr (- int un))
                   else
                     (if 2 ^ 63 \<le> un then Inl (NumError ''Atoi'' s ErrRange)
                      else Inr (int un))))))"

subsection \<open>The watcher and what it does\<close>

text \<open>
  \<open>backoff.Backoff\<close> of github.com/jpillora/backoff: \<open>Duration()\<close> returns the duration of
  the current attempt and increments the attempt counter. The duration itself is floating
  point arithmetic on Min, Max and Factor; the model keeps the attempt number that
  determines it.
\<close>

record backoff =
  attempts :: nat

definition Duration :: "backoff \<Rightarrow> nat \<times> backoff" where
  "Duration b = (attempts b, b\<lparr>attempts := attempts b + 1\<rparr>)"

text \<open>
  The struct \<open>streamWatcher\<close>. The target is passed on unchanged, so its type is a
  parameter. The fields \<open>epClient\<close> and \<open>eventsCh\<close> are the watcher's environment: the
  answers of the client are an input of \<open>watch\<close>, the sends on \<open>eventsCh\<close> are actions of
  its trace.
\<close>

record 't streamWatcher =
  target :: 't
  retryBackoff :: backoff
  lastSeenResourceVersion :: int

text \<open>
  What the watcher does to the outside, in order: the call of the client with the target
  and the resource version, \<open>time.Sleep\<close> on the backoff duration of attempt \<open>n\<close>,
  \<open>fmt.Println\<close> of an error, a send on \<open>eventsCh\<close>, and \<open>stream.Close()\<close>.
\<close>

datatype 't action =
    StartChangeStream 't int
  | Sleep nat
  | Println error
  | Emit watchResult
  | Close

text \<open>
  The environment. One \<open>read\<close> is one return of \<open>decoder.Decode(&got)\<close>: the value of
  \<open>ctx.Err()\<close> as the goroutine finds it after that return, and either the decoded event
  or the decode error. The code consults \<open>ctx.Err()\<close> only after a decode error, so the
  value that comes with a decoded event has no effect. A stream is the list of its reads;
  when the list is used up the next \<open>Decode\<close> blocks for good. A cancellation that comes
  while \<open>Decode\<close> is blocked shows as a read that fails with a cancelled context:
  \<open>proxyEvents\<close> closes the stream, and the pending \<open>Decode\<close> returns an error.
\<close>

datatype decoded = Got event | DecodeErr error

type_synonym read = "ctx \<times> decoded"

text \<open>
  The goroutine of \<open>proxyEvents\<close> and the retry loop run concurrently, and the context can
  be cancelled at any moment. What the scheduler decides for one connection is a \<open>sched\<close>:
  \<^item> \<open>wake\<close>: \<open>Some (c, p)\<close> when the \<open>select\<close> of \<open>proxyEvents\<close> takes \<open>ctx.Done()\<close>,
    with \<open>ctx.Err() = c\<close>, after \<open>p\<close> sends of the goroutine on \<open>eventsCh\<close> have been
    received; \<open>None\<close> when it waits for \<open>connectionErrCh\<close>;
  \<^item> \<open>delay\<close>: the goroutine sends the error on \<open>connectionErrCh\<close> first and the result
    of an undecodable document on \<open>eventsCh\<close> afterwards, while the retry loop is running
    again; \<open>delay\<close> is the number of later actions of the trace that come before that
    result is received;
  \<^item> \<open>ctxAfter\<close>: the value of \<open>ctx.Err()\<close> in the test that follows \<open>proxyEvents\<close> in
    \<open>watch\<close>, when \<open>proxyEvents\<close> returned an error received on \<open>connectionErrCh\<close>.
  Every result that is sent is taken to be received: the trace lists the sends on
  \<open>eventsCh\<close> in the order in which the receiver gets them.
\<close>

record sched =
  wake :: "(error \<times> nat) option"
  delay :: nat
  ctxAfter :: ctx

text \<open>
  One \<open>iteration\<close> is one pass of the retry loop: the value of \<open>ctx.Err()\<close> at the loop
  head and the answer of \<open>StartChangeStream\<close>, for a stream together with the schedule of
  that connection.
\<close>

datatype conn = ConnFail error | Stream "read list" sched

type_synonym iteration = "ctx \<times> conn"

section \<open>proxyEvents\<close>

text \<open>
  How the decode goroutine ends: \<open>Pending\<close>, it is blocked in \<open>Decode\<close>; \<open>Stopped c\<close>, it
  saw \<open>ctx.Err() = c\<close> after a decode error and returned, which closes
  \<open>connectionErrCh\<close>; \<open>Sent e late\<close>, it has the error \<open>e\<close> to send on
  \<open>connectionErrCh\<close> and, once that is received, the result \<open>late\<close> to send on
  \<open>eventsCh\<close> if there is one.
\<close>

datatype signal = Pending | Stopped error | Sent error "watchResult option"

definition emit ::
  "watchResult \<Rightarrow> watchResult list \<times> 'w \<times> signal \<Rightarrow> watchResult list \<times> 'w \<times> signal" where
  "emit r out = (case out of (rs, w, sig) \<Rightarrow> (r # rs, w, sig))"

text \<open>
  The goroutine of \<open>proxyEvents\<close>: the \<open>for\<close> loop around \<open>decoder.Decode\<close>. It returns the
  results it sends on \<open>eventsCh\<close> for the decoded events, in order, the watcher with its
  \<open>lastSeenResourceVersion\<close> as the loop leaves it, and how the loop ends.
\<close>

fun decodeLoop ::
  "'t streamWatcher \<Rightarrow> read list \<Rightarrow> watchResult list \<times> 't streamWatcher \<times> signal" where
  "decodeLoop w [] = ([], w, Pending)"
| "decodeLoop w ((Some c, DecodeErr e) # stream) = ([], w, Stopped c)"
| "decodeLoop w ((None, DecodeErr e) # stream) =
     (if e = EOF then
        ([], w, Sent (Wrap e ''EOF during watch stream event decoding'') None)
      else if e = ErrUnexpectedEOF then
        ([], w, Sent (Wrap e ''Unexpected EOF during watch stream event decoding'') None)
      else
        (let e' = Wrap e ''Unable to decode an event from the watch stream'' in
         ([], w,
          Sent e' (Some \<lparr>ep = None,
                         err = Some (Wrap e' ''Unable to decode an event from the watch stream'')\<rparr>))))"
| "decodeLoop w ((c, Got got) # stream) =
     (if Type got = added \<or> Type got = modified \<or> Type got = deleted \<or> Type got = failed then
        (case Atoi (ResourceVersion (Metadata (Object got))) of
           Inl e \<Rightarrow> emit \<lparr>ep = Some got, err = Some e\<rparr> (decodeLoop w stream)
         | Inr rv \<Rightarrow>
             emit \<lparr>ep = Some got, err = None\<rparr>
               (decodeLoop (w\<lparr>lastSeenResourceVersion := rv\<rparr>) stream))
      else
        emit \<lparr>ep = None,
              err = Some (Errorf (''Got invalid watch event type: '' @ Type got))\<rparr>
          (decodeLoop w stream))"

text \<open>
  How \<open>proxyEvents\<close> ends: \<open>Blocks\<close>, the \<open>select\<close> never fires; \<open>Cancelled c\<close>, it took
  \<open>ctx.Done()\<close> and returned \<open>ctx.Err() = c\<close>; \<open>Closed\<close>, it took \<open>connectionErrCh\<close> after
  the goroutine had closed it and returned nil; \<open>Broken e\<close>, it took \<open>connectionErrCh\<close> and
  returned the error \<open>e\<close> received there.
\<close>

datatype ret = Blocks | Cancelled error | Closed | Broken error

definition emits :: "watchResult list \<Rightarrow> 't action list" where
  "emits rs = map Emit rs"

text \<open>
  The \<open>select\<close> of \<open>proxyEvents\<close> with the deferred \<open>stream.Close()\<close>, over what the
  goroutine does.
  \<^item> When the \<open>select\<close> takes \<open>ctx.Done()\<close> after \<open>p\<close> sends, the stream is closed at that
    point. The goroutine is still running: the results it has in hand, whether decoded
    before or after the cancellation, follow \<open>Close\<close>. An error it then sends on
    \<open>connectionErrCh\<close> is never received, so the result that would follow is never sent.
  \<^item> When the \<open>select\<close> waits and the goroutine blocks in \<open>Decode\<close>, \<open>proxyEvents\<close> does
    not return.
  \<^item> When the \<open>select\<close> waits and the goroutine returns on a cancelled context, the
    \<open>select\<close> receives nil from the closed channel. (Taking \<open>ctx.Done()\<close> there is the
    first case with \<open>p\<close> the number of results.)
  \<^item> When the \<open>select\<close> waits and the goroutine sends an error, \<open>proxyEvents\<close> returns
    it. The result that the goroutine sends after that comes before \<open>Close\<close> when \<open>delay\<close>
    is 0; otherwise it is handed back with the rest of its delay, to be placed among the
    actions that follow \<open>proxyEvents\<close>.
  Either way the stream is closed as the function returns.
\<close>

definition select ::
  "sched \<Rightarrow> watchResult list \<Rightarrow> signal \<Rightarrow>
   't action list \<times> ret \<times> (nat \<times> watchResult) option" where
  "select sc rs sig =
     (case wake sc of
        Some (c, p) \<Rightarrow> (emits (take p rs) @ Close # emits (drop p rs), Cancelled c, None)
      | None \<Rightarrow>
          (case sig of
             Pending \<Rightarrow> (emits rs, Blocks, None)
           | Stopped c \<Rightarrow> (emits rs @ [Close], Closed, None)
           | Sent e late \<Rightarrow>
               (case late of
                  None \<Rightarrow> (emits rs @ [Close], Broken e, None)
                | Some r \<Rightarrow>
                    (case delay sc of
                       0 \<Rightarrow> (emits rs @ [Emit r, Close], Broken e, None)
                     | Suc d \<Rightarrow> (emits rs @ [Close], Broken e, Some (d, r))))))"

text \<open>
  \<open>proxyEvents\<close>: its trace, the watcher as the goroutine leaves it, how it ends, and the
  result that is still to be sent, if any, with its remaining delay.
\<close>

definition proxyEvents ::
  "'t streamWatcher \<Rightarrow> read list \<Rightarrow> sched \<Rightarrow>
   't action list \<times> 't streamWatcher \<times> ret \<times> (nat \<times> watchResult) option" where
  "proxyEvents w stream sc =
     (case decodeLoop w stream of
        (rs, w', sig) \<Rightarrow> (case select sc rs sig of (acts, x, q) \<Rightarrow> (acts, w', x, q)))"

section \<open>watch\<close>

text \<open>
  A result that is still to be sent is received after \<open>d\<close> more actions of the trace, at
  its end when the trace is shorter.
\<close>

definition sendLate :: "(nat \<times> watchResult) option \<Rightarrow> 't action list \<Rightarrow> 't action list" where
  "sendLate q acts =
     (case q of None \<Rightarrow> acts | Some (d, r) \<Rightarrow> take d acts @ Emit r # drop d acts)"

text \<open>
  The retry loop of \<open>watch\<close>, one iteration of the environment for each pass; the
  result is the trace of the run. With no iteration left the observation ends. After
  \<open>proxyEvents\<close> the test \<open>ctx.Err() != nil\<close> holds when the \<open>select\<close> took \<open>ctx.Done()\<close> and
  when it received nil, since the goroutine closes the channel without a send only on a
  cancelled context; after an error received on \<open>connectionErrCh\<close> it is \<open>ctxAfter\<close> of the
  schedule that decides.
\<close>

fun watch :: "'t streamWatcher \<Rightarrow> iteration list \<Rightarrow> 't action list" where
  "watch w [] = []"
| "watch w ((Some c, answer) # iters) = []"
| "watch w ((None, ConnFail e) # iters) =
     (case Duration (retryBackoff w) of
        (d, b) \<Rightarrow>
          StartChangeStream (target w) (lastSeenResourceVersion w)
          # Println (Wrap e ''k8sresolver stream: Failed to do start stream'')
          # Sleep d
          # watch (w\<lparr>retryBackoff := b\<rparr>) iters)"
| "watch w ((None, Stream stream sc) # iters) =
     (case proxyEvents w stream sc of
        (acts, w', x, q) \<Rightarrow>
          StartChangeStream (target w) (lastSeenResourceVersion w) # acts @
          (case x of
             Blocks \<Rightarrow> []
           | Cancelled c \<Rightarrow> []
           | Closed \<Rightarrow> []
           | Broken e \<Rightarrow>
               sendLate q
                 (case ctxAfter sc of
                    Some c \<Rightarrow> []
                  | None \<Rightarrow>
                      Println
                        (Wrap e ''k8sresolver stream: Error on read and proxy Events. Retrying'')
                      # watch w' iters)))"

section \<open>Observations on a trace\<close>

text \<open>The results sent on \<open>eventsCh\<close> in a trace, in order.\<close>

fun results :: "'t action list \<Rightarrow> watchResult list" where
  "results [] = []"
| "results (Emit r # acts) = r # results acts"
| "results (a # acts) = results acts"

fun isStart :: "'t action \<Rightarrow> bool" where
  "isStart (StartChangeStream t v) = True"
| "isStart a = False"

fun isSleep :: "'t action \<Rightarrow> bool" where
  "isSleep (Sleep n) = True"
| "isSleep a = False"

text \<open>What the retry loop itself does in a trace: every action but the sends on \<open>eventsCh\<close>.\<close>

fun calls :: "'t action list \<Rightarrow> 't action list" where
  "calls [] = []"
| "calls (Emit r # acts) = calls acts"
| "calls (a # acts) = a # calls acts"

text \<open>An action with the duration of a sleep left out.\<close>

fun unsleep :: "'t action \<Rightarrow> 't action" where
  "unsleep (Sleep n) = Sleep 0"
| "unsleep a = a"

definition knownType :: "event \<Rightarrow> bool" where
  "knownType got =
     (Type got = added \<or> Type got = modified \<or> Type got = deleted \<or> Type got = failed)"

definition version :: "event \<Rightarrow> string" where
  "version got = ResourceVersion (Metadata (Object got))"

text \<open>
  A result reports a successfully parsed event when it carries the event and no error;
  \<open>parsed\<close> is then the integer its resourceVersion stands for.
\<close>

definition parsed :: "watchResult \<Rightarrow> int option" where
  "parsed r =
     (case ep r of
        None \<Rightarrow> None
      | Some got \<Rightarrow>
          (case err r of
             Some e \<Rightarrow> None
           | None \<Rightarrow> (case Atoi (version got) of Inl e \<Rightarrow> None | Inr rv \<Rightarrow> Some rv)))"

text \<open>
  The resourceVersion of the most recent successfully parsed event of a trace, \<open>v\<close> when
  there is none.
\<close>

fun lastParsed :: "int \<Rightarrow> 't action list \<Rightarrow> int" where
  "lastParsed v [] = v"
| "lastParsed v (Emit r # acts) =
     lastParsed (case parsed r of None \<Rightarrow> v | Some rv \<Rightarrow> rv) acts"
| "lastParsed v (a # acts) = lastParsed v acts"

text \<open>Exactly one of the two fields of a result is populated.\<close>

definition exactlyOne :: "watchResult \<Rightarrow> bool" where
  "exactlyOne r = ((ep r = None) \<noteq> (err r = None))"

text \<open>
  A result carries an event of a known type together with the error that
  \<open>strconv.Atoi\<close> gives on its resourceVersion.
\<close>

definition carriesParseError :: "watchResult \<Rightarrow> bool" where
  "carriesParseError r =
     (case ep r of
        None \<Rightarrow> False
      | Some got \<Rightarrow>
          knownType got \<and>
          (case Atoi (version got) of Inl e \<Rightarrow> err r = Some e | Inr rv \<Rightarrow> False))"

text \<open>
  The value of \<open>lastSeenResourceVersion\<close> once the goroutine has dealt with the first \<open>n\<close>
  reads of a stream, and the list of these values for \<open>n\<close> from 0 to the length of the
  stream.
\<close>

definition seenAfter :: "'t streamWatcher \<Rightarrow> read list \<Rightarrow> nat \<Rightarrow> int" where
  "seenAfter w stream n = lastSeenResourceVersion (fst (snd (decodeLoop w (take n stream))))"

definition versions :: "'t streamWatcher \<Rightarrow> read list \<Rightarrow> int list" where
  "versions w stream = map (seenAfter w stream) [0..<Suc (length stream)]"

subsection \<open>The values of streamer_test.go\<close>

definition testTarget :: "string \<times> string" where
  "testTarget = (''service1'', ''namespace1'')"

text \<open>
  The schedule in which the context stays live, the \<open>select\<close> waits for the goroutine, and
  the result of an undecodable document is received at once.
\<close>

definition atOnce :: sched where
  "atOnce = \<lparr>wake = None, delay = 0, ctxAfter = None\<rparr>"

definition testWatcher :: "(string \<times> string) streamWatcher" where
  "testWatcher = \<lparr>target = testTarget, retryBackoff = \<lparr>attempts = 0\<rparr>,
                  lastSeenResourceVersion = 0\<rparr>"

definition wrongEvent :: event where
  "wrongEvent = \<lparr>Type = ''not-supported'',
                 Object = \<lparr>Metadata = \<lparr>ResourceVersion = []\<rparr>, Subsets = []\<rparr>\<rparr>"

definition expectedEvent :: event where
  "expectedEvent =
     \<lparr>Type = added,
      Object = \<lparr>Metadata = \<lparr>ResourceVersion = ''123''\<rparr>,
                Subsets = [\<lparr>Addresses = [\<lparr>IP = ''1.2.3.4''\<rparr>],
                            Ports = [\<lparr>Port = 8080, Name = ''noName''\<rparr>]\<rparr>]\<rparr>\<rparr>"

text \<open>An event of the given type and resourceVersion with no subsets.\<close>

definition versioned :: "eventType \<Rightarrow> string \<Rightarrow> event" where
  "versioned t rv = \<lparr>Type = t, Object = \<lparr>Metadata = \<lparr>ResourceVersion = rv\<rparr>, Subsets = []\<rparr>\<rparr>"

section \<open>Properties of proxyEvents\<close>

text \<open>The definitions that a run on concrete values unfolds.\<close>

lemmas evals = testWatcher_def testTarget_def wrongEvent_def expectedEvent_def versioned_def
  atOnce_def knownType_def version_def added_def modified_def deleted_def failed_def
  Atoi_def isDigit_def proxyEvents_def select_def sendLate_def emit_def emits_def Duration_def
  Let_def

text \<open>
  A connection that was read without failure so far, while the \<open>select\<close> waits: the
  goroutine is \<open>Pending\<close>, \<open>proxyEvents\<close> is at \<open>Blocks\<close>, and the reads that follow are dealt
  with from the watcher reached.
\<close>

lemma decodeLoop_append:
  "decodeLoop w pre = (rs, w1, Pending) \<Longrightarrow>
   decodeLoop w (pre @ stream) =
     (case decodeLoop w1 stream of (rs2, w2, sig) \<Rightarrow> (rs @ rs2, w2, sig))"
proof (induction w pre arbitrary: rs rule: decodeLoop.induct)
  case (1 w)
  then show ?case by (simp split: prod.splits)
next
  case (2 w c e stream')
  then show ?case by simp
next
  case (3 w e stream')
  then show ?case by (simp split: if_splits add: Let_def)
next
  case (4 w c got stream')
  then show ?case
    by (auto simp: emit_def split: if_splits sum.splits prod.splits)
qed

lemma emits_append: "emits (xs @ ys) = emits xs @ emits ys"
  by (simp add: emits_def)

lemma proxyEvents_select:
  assumes "proxyEvents w stream sc = (acts, w1, x, q)"
  shows "\<exists>rs sig. decodeLoop w stream = (rs, w1, sig) \<and> select sc rs sig = (acts, x, q)"
proof -
  obtain rs w' sig where d: "decodeLoop w stream = (rs, w', sig)"
    by (cases "decodeLoop w stream")
  obtain acts' x' q' where s: "select sc rs sig = ((acts' :: 'a action list), x', q')"
    by (cases "select sc rs sig :: 'a action list \<times> ret \<times> (nat \<times> watchResult) option")
  from assms d s have "acts' = acts" "w' = w1" "x' = x" "q' = q"
    by (simp_all add: proxyEvents_def)
  with d s show ?thesis by simp
qed

lemma select_Blocks:
  "select sc rs sig = (acts, Blocks, q) \<longleftrightarrow>
   (wake sc = None \<and> sig = Pending \<and> acts = emits rs \<and> q = None)"
  by (auto simp: select_def split: option.splits signal.splits nat.splits prod.splits)

lemma proxyEvents_Blocks:
  "proxyEvents w pre sc = (acts, w1, Blocks, q) \<longleftrightarrow>
   (\<exists>rs. decodeLoop w pre = (rs, w1, Pending) \<and> wake sc = None \<and> acts = emits rs \<and> q = None)"
proof
  assume "proxyEvents w pre sc = (acts, w1, Blocks, q)"
  from proxyEvents_select [OF this] show
    "\<exists>rs. decodeLoop w pre = (rs, w1, Pending) \<and> wake sc = None \<and> acts = emits rs \<and> q = None"
    by (auto simp: select_Blocks)
next
  assume "\<exists>rs. decodeLoop w pre = (rs, w1, Pending) \<and> wake sc = None \<and> acts = emits rs \<and> q = None"
  then show "proxyEvents w pre sc = (acts, w1, Blocks, q)"
    by (auto simp: proxyEvents_def select_def)
qed

lemma select_waiting_append:
  "wake sc = None \<Longrightarrow>
   select sc (rs @ rs2) sig =
     (case select sc rs2 sig of (acts, x, q) \<Rightarrow> (emits rs @ acts, x, q))"
  by (simp add: select_def emits_append split: signal.splits option.splits nat.splits)

lemma proxyEvents_append:
  assumes "proxyEvents w pre sc = (acts, w1, Blocks, q)"
  shows "proxyEvents w (pre @ stream) sc =
     (case proxyEvents w1 stream sc of (acts2, w2, x, q2) \<Rightarrow> (acts @ acts2, w2, x, q2))"
proof -
  from assms obtain rs where
    rs: "decodeLoop w pre = (rs, w1, Pending)" "wake sc = None" "acts = emits rs"
    by (auto simp: proxyEvents_Blocks)
  show ?thesis
    by (simp add: proxyEvents_def decodeLoop_append [OF rs(1)] select_waiting_append [OF rs(2)]
        rs(3) split: prod.splits)
qed

text \<open>One read at the head of a stream, while the \<open>select\<close> waits.\<close>

lemma proxyEvents_Got:
  assumes "wake sc = None"
  shows "proxyEvents w ((c, Got got) # stream) sc =
     (if knownType got then
        (case Atoi (version got) of
           Inl e \<Rightarrow>
             (case proxyEvents w stream sc of
                (acts, w2, x, q) \<Rightarrow> (Emit \<lparr>ep = Some got, err = Some e\<rparr> # acts, w2, x, q))
         | Inr rv \<Rightarrow>
             (case proxyEvents (w\<lparr>lastSeenResourceVersion := rv\<rparr>) stream sc of
                (acts, w2, x, q) \<Rightarrow> (Emit \<lparr>ep = Some got, err = None\<rparr> # acts, w2, x, q)))
      else
        (case proxyEvents w stream sc of
           (acts, w2, x, q) \<Rightarrow>
             (Emit \<lparr>ep = None,
                    err = Some (Errorf (''Got invalid watch event type: '' @ Type got))\<rparr> # acts,
              w2, x, q)))"
proof -
  have s: "select sc (r # rs) sig =
      (case select sc rs sig of (acts, x, q) \<Rightarrow> ((Emit r :: 'a action) # acts, x, q))" for r rs sig
    using select_waiting_append [OF assms, of "[r]" rs sig, where ?'a = 'a]
    by (simp add: emits_def)
  show ?thesis
    by (simp add: proxyEvents_def knownType_def version_def emit_def s
        split: prod.splits sum.splits)
qed

lemma proxyEvents_live_DecodeErr:
  assumes "wake sc = None"
  shows "proxyEvents w ((None, DecodeErr e) # stream) sc =
     (if e = EOF then
        ([Close], w, Broken (Wrap e ''EOF during watch stream event decoding''), None)
      else if e = ErrUnexpectedEOF then
        ([Close], w, Broken (Wrap e ''Unexpected EOF during watch stream event decoding''), None)
      else
        (case delay sc of
           0 \<Rightarrow>
             ([Emit \<lparr>ep = None,
                     err = Some (Wrap (Wrap e ''Unable to decode an event from the watch stream'')
                                      ''Unable to decode an event from the watch stream'')\<rparr>,
               Close],
              w, Broken (Wrap e ''Unable to decode an event from the watch stream''), None)
         | Suc d \<Rightarrow>
             ([Close], w, Broken (Wrap e ''Unable to decode an event from the watch stream''),
              Some (d, \<lparr>ep = None,
                        err = Some (Wrap (Wrap e ''Unable to decode an event from the watch stream'')
                                         ''Unable to decode an event from the watch stream'')\<rparr>))))"
  using assms by (simp add: proxyEvents_def select_def emits_def Let_def split: nat.splits)

section \<open>Properties of watch\<close>

text \<open>The goroutine changes neither the target nor the backoff.\<close>

lemma decodeLoop_fixed:
  "target (fst (snd (decodeLoop w stream))) = target w \<and>
   retryBackoff (fst (snd (decodeLoop w stream))) = retryBackoff w"
  by (induction w stream rule: decodeLoop.induct)
    (auto simp: emit_def Let_def split: sum.splits prod.splits)

lemma proxyEvents_fixed:
  "proxyEvents w stream sc = (acts, w1, x, q) \<Longrightarrow>
   target w1 = target w \<and> retryBackoff w1 = retryBackoff w"
  using decodeLoop_fixed [of w stream] by (auto simp: proxyEvents_def split: prod.splits)

lemma watch_live_hd:
  "watch w ((None, answer) # iters) =
     StartChangeStream (target w) (lastSeenResourceVersion w) # tl (watch w ((None, answer) # iters))"
  by (cases answer) (auto split: prod.splits)

lemma watch_Broken:
  "proxyEvents w stream sc = (acts, w1, Broken e, q) \<Longrightarrow>
   watch w ((None, Stream stream sc) # iters) =
     StartChangeStream (target w) (lastSeenResourceVersion w) # acts @
     sendLate q
       (case ctxAfter sc of
          Some c \<Rightarrow> []
        | None \<Rightarrow>
            Println (Wrap e ''k8sresolver stream: Error on read and proxy Events. Retrying'')
            # watch w1 iters)"
  by simp

lemma watch_stops:
  "proxyEvents w stream sc = (acts, w1, x, q) \<Longrightarrow> \<forall>e. x \<noteq> Broken e \<Longrightarrow>
   watch w ((None, Stream stream sc) # iters) =
     StartChangeStream (target w) (lastSeenResourceVersion w) # acts"
  by (cases x) simp_all

text \<open>
  The result that the goroutine sends after the error of a broken stream carries an error
  and no event.
\<close>

lemma decodeLoop_late:
  "snd (snd (decodeLoop w stream)) = Sent e (Some r) \<Longrightarrow> ep r = None \<and> err r \<noteq> None"
  by (induction w stream rule: decodeLoop.induct)
    (auto simp: emit_def Let_def case_prod_beta split: sum.splits if_splits)

lemma proxyEvents_late:
  assumes "proxyEvents w stream sc = (acts, w1, x, Some (d, r))"
  shows "ep r = None \<and> err r \<noteq> None"
proof -
  from proxyEvents_select [OF assms] obtain rs sig where
    a: "decodeLoop w stream = (rs, w1, sig)" "select sc rs sig = (acts, x, Some (d, r))"
    by blast
  from a(2) obtain e where "sig = Sent e (Some r)"
    by (auto simp: select_def split: option.splits signal.splits nat.splits prod.splits)
  with decodeLoop_late [of w stream e r] a(1) show ?thesis by simp
qed

text \<open>
  \<open>lastSeenResourceVersion\<close> after \<open>proxyEvents\<close> is the most recent parsed resourceVersion
  of its trace.
\<close>

lemma lastParsed_append: "lastParsed v (xs @ ys) = lastParsed (lastParsed v xs) ys"
  by (induction v xs rule: lastParsed.induct) simp_all

lemma lastParsed_emits_Cons:
  "lastParsed v (emits (r # rs) :: 't action list) =
   lastParsed (case parsed r of None \<Rightarrow> v | Some rv \<Rightarrow> rv) (emits rs :: 't action list)"
  by (simp add: emits_def)

lemma decodeLoop_lastParsed:
  "lastParsed (lastSeenResourceVersion w) (emits (fst (decodeLoop w stream)) :: 't action list) =
   lastSeenResourceVersion (fst (snd (decodeLoop w stream)))"
proof (induction w stream rule: decodeLoop.induct)
  case (1 w)
  then show ?case by (simp add: emits_def)
next
  case (2 w c e stream)
  then show ?case by (simp add: emits_def)
next
  case (3 w e stream)
  then show ?case by (simp add: emits_def parsed_def Let_def)
next
  case (4 w c got stream)
  then show ?case
    by (auto simp: emit_def lastParsed_emits_Cons parsed_def version_def split: sum.splits prod.splits)
qed

lemma parsed_late: "ep r = None \<Longrightarrow> parsed r = None"
  by (simp add: parsed_def)

lemma select_lastParsed:
  assumes "select sc rs sig = ((acts :: 't action list), x, q)"
    and "\<And>e r. sig = Sent e (Some r) \<Longrightarrow> ep r = None"
  shows "lastParsed v acts = lastParsed v (emits rs :: 't action list)"
proof (cases "wake sc")
  case (Some cp)
  obtain c p where "cp = (c, p)" by (cases cp)
  with Some assms(1) have "acts = emits (take p rs) @ Close # emits (drop p rs)"
    by (simp add: select_def)
  moreover have "emits rs = (emits (take p rs) @ emits (drop p rs) :: 't action list)"
    by (simp add: emits_append [symmetric])
  ultimately show ?thesis by (simp add: lastParsed_append)
next
  case None
  show ?thesis
  proof (cases sig)
    case Pending
    with None assms(1) show ?thesis by (simp add: select_def)
  next
    case (Stopped c)
    with None assms(1) show ?thesis by (auto simp: select_def lastParsed_append)
  next
    case (Sent e late)
    show ?thesis
    proof (cases late)
      case None
      with \<open>wake sc = None\<close> Sent assms(1) show ?thesis
        by (auto simp: select_def lastParsed_append)
    next
      case (Some r)
      with Sent assms(2) have "parsed r = None" by (simp add: parsed_late)
      with \<open>wake sc = None\<close> Sent Some assms(1) show ?thesis
        by (auto simp: select_def lastParsed_append split: nat.splits)
    qed
  qed
qed

lemma proxyEvents_lastParsed:
  assumes "proxyEvents w stream sc = (acts, w1, x, q)"
  shows "lastParsed (lastSeenResourceVersion w) acts = lastSeenResourceVersion w1"
proof -
  from proxyEvents_select [OF assms] obtain rs sig where
    d: "decodeLoop w stream = (rs, w1, sig)" and s: "select sc rs sig = (acts, x, q)"
    by blast
  have "lastParsed (lastSeenResourceVersion w) acts =
        lastParsed (lastSeenResourceVersion w) (emits rs :: 'a action list)"
  proof (rule select_lastParsed [OF s])
    fix e r assume "sig = Sent e (Some r)"
    with decodeLoop_late [of w stream e r] d show "ep r = None" by simp
  qed
  also have "\<dots> = lastSeenResourceVersion w1"
    using decodeLoop_lastParsed [of w stream, where ?'t = 'a] d by simp
  finally show ?thesis .
qed

text \<open>\<open>proxyEvents\<close> only sends results and closes the stream.\<close>

lemma select_actions:
  assumes "select sc rs sig = (acts, x, q)" and "a \<in> set acts"
  shows "a = Close \<or> (\<exists>r. a = Emit r)"
  using assms
  by (auto simp: select_def emits_def split: option.splits signal.splits nat.splits prod.splits
      dest: in_set_takeD in_set_dropD)

lemma proxyEvents_actions:
  assumes "proxyEvents w stream sc = (acts, w1, x, q)" and "a \<in> set acts"
  shows "a = Close \<or> (\<exists>r. a = Emit r)"
  using proxyEvents_select [OF assms(1)] select_actions assms(2) by blast

lemma proxyEvents_no_Start:
  assumes "proxyEvents w stream sc = (acts, w1, x, q)"
  shows "StartChangeStream t v \<notin> set acts" and "filter isStart acts = []"
    and "filter isSleep acts = []"
proof -
  show "StartChangeStream t v \<notin> set acts"
    using proxyEvents_actions [OF assms] by blast
  have "\<not> isStart a \<and> \<not> isSleep a" if "a \<in> set acts" for a
    using proxyEvents_actions [OF assms that] by auto
  then show "filter isStart acts = []" and "filter isSleep acts = []"
    by (simp_all add: filter_empty_conv)
qed

text \<open>
  A result sent late carries no event, so it changes neither the calls of a trace nor the
  most recent parsed resourceVersion before any of them.
\<close>

lemma split_after:
  assumes "xs @ ys = pre @ a # post" and "a \<notin> set xs"
  shows "\<exists>pre2. pre = xs @ pre2 \<and> ys = pre2 @ a # post"
  using assms
proof (induction xs arbitrary: pre)
  case Nil
  then show ?case by simp
next
  case (Cons x xs)
  then show ?case by (cases pre) auto
qed

lemma calls_append: "calls (xs @ ys) = calls xs @ calls ys"
  by (induction xs rule: calls.induct) simp_all

lemma calls_emits: "calls (emits rs) = []"
  by (induction rs) (simp_all add: emits_def)

lemma calls_sendLate: "calls (sendLate q acts) = calls acts"
proof (cases q)
  case None
  then show ?thesis by (simp add: sendLate_def)
next
  case (Some dr)
  obtain d r where "dr = (d, r)" by (cases dr)
  with Some have "calls (sendLate q acts) = calls (take d acts) @ calls (drop d acts)"
    by (simp add: sendLate_def calls_append)
  also have "\<dots> = calls acts"
    by (simp add: calls_append [symmetric])
  finally show ?thesis .
qed

lemma sendLate_split:
  assumes "sendLate q acts = pre @ StartChangeStream t v # post"
    and "\<And>d r. q = Some (d, r) \<Longrightarrow> ep r = None"
  shows "\<exists>pre' post'. acts = pre' @ StartChangeStream t v # post' \<and>
           (\<forall>v0. lastParsed v0 pre' = lastParsed v0 pre)"
proof (cases q)
  case None
  with assms(1) show ?thesis by (auto simp: sendLate_def)
next
  case (Some dr)
  obtain d r where dr: "dr = (d, r)" by (cases dr)
  with Some assms(2) have pr: "parsed r = None" by (simp add: parsed_late)
  from Some dr assms(1) have
    eq: "take d acts @ Emit r # drop d acts = pre @ StartChangeStream t v # post"
    by (simp add: sendLate_def)
  then consider
    us where "take d acts = pre @ us" "us @ Emit r # drop d acts = StartChangeStream t v # post"
    | us where "take d acts @ us = pre" "Emit r # drop d acts = us @ StartChangeStream t v # post"
    by (auto simp: append_eq_append_conv2)
  then show ?thesis
  proof cases
    case 1
    from 1(2) obtain us' where us: "us = StartChangeStream t v # us'"
      by (cases us) auto
    have "acts = take d acts @ drop d acts" by simp
    also have "\<dots> = pre @ StartChangeStream t v # (us' @ drop d acts)"
      using 1(1) us by simp
    finally show ?thesis by blast
  next
    case 2
    from 2(2) obtain us' where us: "us = Emit r # us'" "drop d acts = us' @ StartChangeStream t v # post"
      by (cases us) auto
    have "acts = take d acts @ drop d acts" by simp
    also have "\<dots> = (take d acts @ us') @ StartChangeStream t v # post"
      using us(2) by simp
    finally have a: "acts = (take d acts @ us') @ StartChangeStream t v # post" .
    have "lastParsed v0 (take d acts @ us') = lastParsed v0 pre" for v0
      using 2(1) us(1) pr by (auto simp: lastParsed_append)
    with a show ?thesis by blast
  qed
qed

text \<open>The deferred \<open>Close\<close>.\<close>

lemma filter_Close_emits: "filter (\<lambda>a. a = Close) (emits rs) = []"
  by (induction rs) (auto simp: emits_def)

lemma select_Close:
  assumes "select sc rs sig = (acts, x, q)"
  shows "filter (\<lambda>a. a = Close) acts = (if x = Blocks then [] else [Close]) \<and>
         ((\<exists>e. x = Broken e) \<longrightarrow> last acts = Close)"
  using assms
  by (auto simp: select_def filter_Close_emits
      split: option.splits signal.splits nat.splits prod.splits)

text \<open>The goroutine stays in its loop exactly as long as every read gives an event.\<close>

lemma decodeLoop_Pending:
  "snd (snd (decodeLoop w stream)) = Pending \<longleftrightarrow>
   list_all (\<lambda>r. \<exists>got. snd r = Got got) stream"
proof (induction stream arbitrary: w)
  case Nil
  then show ?case by simp
next
  case (Cons r stream)
  obtain c d where r: "r = (c, d)" by (cases r)
  show ?case
  proof (cases d)
    case (DecodeErr e)
    then show ?thesis using r by (cases c) (simp_all add: Let_def)
  next
    case (Got got)
    show ?thesis
    proof (cases "Type got = added \<or> Type got = modified \<or> Type got = deleted \<or> Type got = failed")
      case False
      then show ?thesis using r Got Cons [of w] by (auto simp: emit_def case_prod_beta)
    next
      case True
      show ?thesis
      proof (cases "Atoi (ResourceVersion (Metadata (Object got)))")
        case (Inl e)
        then show ?thesis using True r Got Cons [of w] by (auto simp: emit_def case_prod_beta)
      next
        case (Inr rv)
        then show ?thesis
          using True r Got Cons [of "w\<lparr>lastSeenResourceVersion := rv\<rparr>"]
          by (auto simp: emit_def case_prod_beta)
      qed
    qed
  qed
qed

lemma proxyEvents_returns:
  assumes "proxyEvents w stream sc = (acts, w1, x, q)"
  shows "x = Blocks \<longleftrightarrow> wake sc = None \<and> (\<forall>r\<in>set stream. \<exists>got. snd r = Got got)"
proof -
  from proxyEvents_select [OF assms] obtain rs sig where
    d: "decodeLoop w stream = (rs, w1, sig)" and s: "select sc rs sig = (acts, x, q)"
    by blast
  have "x = Blocks \<longleftrightarrow> wake sc = None \<and> sig = Pending"
    using s by (auto simp: select_def split: option.splits signal.splits nat.splits)
  also have "\<dots> \<longleftrightarrow> wake sc = None \<and> (\<forall>r\<in>set stream. \<exists>got. snd r = Got got)"
    using decodeLoop_Pending [of w stream] d by (simp add: list_all_iff)
  finally show ?thesis .
qed

text \<open>What is sent on \<open>eventsCh\<close> does not depend on the backoff.\<close>

lemma results_append: "results (xs @ ys) = results xs @ results ys"
  by (induction xs rule: results.induct) simp_all

lemma results_emits: "results (emits rs :: 't action list) = rs"
  by (induction rs) (simp_all add: emits_def)

lemma backoff_lastSeen_commute:
  "w\<lparr>retryBackoff := b, lastSeenResourceVersion := v\<rparr> =
   w\<lparr>lastSeenResourceVersion := v, retryBackoff := b\<rparr>"
  by simp

lemma decodeLoop_backoff:
  "decodeLoop (w\<lparr>retryBackoff := b\<rparr>) stream =
     (fst (decodeLoop w stream),
      (fst (snd (decodeLoop w stream)))\<lparr>retryBackoff := b\<rparr>,
      snd (snd (decodeLoop w stream)))"
proof (induction w stream rule: decodeLoop.induct)
  case (4 w c got stream)
  show ?case
  proof (cases "Type got = added \<or> Type got = modified \<or> Type got = deleted \<or> Type got = failed")
    case False
    then show ?thesis using 4(3) [OF False] by (simp add: emit_def case_prod_beta)
  next
    case True
    show ?thesis
    proof (cases "Atoi (ResourceVersion (Metadata (Object got)))")
      case (Inl e)
      then show ?thesis using True 4(1) [OF True Inl] by (simp add: emit_def case_prod_beta)
    next
      case (Inr rv)
      have "decodeLoop (w\<lparr>retryBackoff := b, lastSeenResourceVersion := rv\<rparr>) stream =
            decodeLoop (w\<lparr>lastSeenResourceVersion := rv, retryBackoff := b\<rparr>) stream"
        by (simp only: backoff_lastSeen_commute)
      then show ?thesis using True Inr 4(2) [OF True Inr] by (simp add: emit_def case_prod_beta)
    qed
  qed
qed (simp_all add: Let_def)

lemma proxyEvents_backoff:
  "proxyEvents (w\<lparr>retryBackoff := b\<rparr>) stream sc =
     (fst (proxyEvents w stream sc),
      (fst (snd (proxyEvents w stream sc)))\<lparr>retryBackoff := b\<rparr>,
      snd (snd (proxyEvents w stream sc)))"
  by (simp add: proxyEvents_def decodeLoop_backoff case_prod_beta)

lemma results_unsleep: "results (map unsleep xs) = results xs"
  by (induction xs rule: results.induct) simp_all

lemma unsleep_sendLate: "map unsleep (sendLate q xs) = sendLate q (map unsleep xs)"
  by (simp add: sendLate_def take_map drop_map split: option.splits)

lemma watch_backoff:
  "map unsleep (watch (w\<lparr>retryBackoff := b\<rparr>) iters) = map unsleep (watch w iters)"
proof (induction w iters arbitrary: b rule: watch.induct)
  case (1 w)
  then show ?case by simp
next
  case (2 w c answer iters)
  then show ?case by simp
next
  case (3 w e iters)
  have a: "map unsleep (watch (w\<lparr>retryBackoff := b'\<rparr>) iters) =
           map unsleep (watch (w\<lparr>retryBackoff := snd (Duration (retryBackoff w))\<rparr>) iters)" for b'
    using 3 [of "fst (Duration (retryBackoff w))" "snd (Duration (retryBackoff w))" b']
    by simp
  have "map unsleep (watch (w\<lparr>retryBackoff := b\<rparr>) ((None, ConnFail e) # iters)) =
        StartChangeStream (target w) (lastSeenResourceVersion w)
        # Println (Wrap e ''k8sresolver stream: Failed to do start stream'')
        # Sleep 0
        # map unsleep (watch (w\<lparr>retryBackoff := snd (Duration b)\<rparr>) iters)"
    by (simp split: prod.splits)
  also have "map unsleep (watch (w\<lparr>retryBackoff := snd (Duration b)\<rparr>) iters) =
        map unsleep (watch (w\<lparr>retryBackoff := snd (Duration (retryBackoff w))\<rparr>) iters)"
    by (rule a)
  also have "StartChangeStream (target w) (lastSeenResourceVersion w)
        # Println (Wrap e ''k8sresolver stream: Failed to do start stream'')
        # Sleep 0
        # map unsleep (watch (w\<lparr>retryBackoff := snd (Duration (retryBackoff w))\<rparr>) iters) =
        map unsleep (watch w ((None, ConnFail e) # iters))"
    by (simp split: prod.splits)
  finally show ?case .
next
  case (4 w stream sc iters)
  obtain acts w1 x q where pe: "proxyEvents w stream sc = (acts, w1, x, q)"
    by (cases "proxyEvents w stream sc")
  then have peb: "proxyEvents (w\<lparr>retryBackoff := b\<rparr>) stream sc =
      (acts, w1\<lparr>retryBackoff := b\<rparr>, x, q)"
    by (simp add: proxyEvents_backoff)
  show ?case
  proof (cases x)
    case (Broken e)
    show ?thesis
    proof (cases "ctxAfter sc")
      case None
      have "map unsleep (watch (w1\<lparr>retryBackoff := b\<rparr>) iters) = map unsleep (watch w1 iters)"
        using 4 [OF pe [symmetric] refl refl Broken None] .
      then show ?thesis using pe peb Broken None by (simp add: unsleep_sendLate)
    next
      case (Some c)
      then show ?thesis using pe peb Broken by simp
    qed
  qed (simp_all add: pe peb)
qed

lemma results_watch_backoff:
  "results (watch (w\<lparr>retryBackoff := b\<rparr>) iters) = results (watch w iters)"
proof -
  have "results (map unsleep (watch (w\<lparr>retryBackoff := b\<rparr>) iters)) =
        results (map unsleep (watch w iters))"
    by (simp only: watch_backoff)
  then show ?thesis by (simp only: results_unsleep)
qed

text \<open>The fields of the results.\<close>

lemma decodeLoop_shape:
  "\<forall>r\<in>set (fst (decodeLoop w stream)). exactlyOne r \<or> carriesParseError r"
proof (induction w stream rule: decodeLoop.induct)
  case (4 w c got stream)
  show ?case
  proof (cases "Type got = added \<or> Type got = modified \<or> Type got = deleted \<or> Type got = failed")
    case False
    then show ?thesis using 4(3) [OF False]
      by (simp add: emit_def case_prod_beta carriesParseError_def exactlyOne_def)
  next
    case True
    show ?thesis
    proof (cases "Atoi (ResourceVersion (Metadata (Object got)))")
      case (Inl e)
      then show ?thesis using True 4(1) [OF True Inl]
        by (simp add: emit_def case_prod_beta carriesParseError_def knownType_def version_def)
    next
      case (Inr rv)
      then show ?thesis using True 4(2) [OF True Inr]
        by (simp add: emit_def case_prod_beta carriesParseError_def exactlyOne_def)
    qed
  qed
qed (simp_all add: Let_def carriesParseError_def exactlyOne_def)

lemma select_results:
  assumes "select sc rs sig = (acts, x, q)"
  shows "\<forall>r\<in>set (results acts). r \<in> set rs \<or> (\<exists>e. sig = Sent e (Some r))"
    and "\<forall>d r. q = Some (d, r) \<longrightarrow> (\<exists>e. sig = Sent e (Some r))"
  using assms
  by (auto simp: select_def results_append results_emits
      split: option.splits signal.splits nat.splits prod.splits
      dest: in_set_takeD in_set_dropD)

lemma proxyEvents_shape:
  assumes "proxyEvents w stream sc = (acts, w1, x, q)"
  shows "\<forall>r\<in>set (results acts). exactlyOne r \<or> carriesParseError r"
    and "\<forall>d r. q = Some (d, r) \<longrightarrow> exactlyOne r"
proof -
  from proxyEvents_select [OF assms] obtain rs sig where
    d: "decodeLoop w stream = (rs, w1, sig)" and s: "select sc rs sig = (acts, x, q)"
    by blast
  have late: "exactlyOne r" if "sig = Sent e (Some r)" for e r
    using decodeLoop_late [of w stream e r] d that by (auto simp: exactlyOne_def)
  show "\<forall>r\<in>set (results acts). exactlyOne r \<or> carriesParseError r"
    using select_results(1) [OF s] decodeLoop_shape [of w stream] d late by auto
  show "\<forall>d r. q = Some (d, r) \<longrightarrow> exactlyOne r"
    using select_results(2) [OF s] late by blast
qed

lemma results_sendLate:
  "r \<in> set (results (sendLate q xs)) \<Longrightarrow> r \<in> set (results xs) \<or> (\<exists>d. q = Some (d, r))"
proof (cases q)
  case None
  assume "r \<in> set (results (sendLate q xs))"
  with None show ?thesis by (simp add: sendLate_def)
next
  case (Some dr)
  obtain d r' where dr: "dr = (d, r')" by (cases dr)
  assume "r \<in> set (results (sendLate q xs))"
  with Some dr have "r \<in> set (results (take d xs)) \<or> r = r' \<or> r \<in> set (results (drop d xs))"
    by (auto simp: sendLate_def results_append)
  moreover have "results xs = results (take d xs) @ results (drop d xs)"
    by (simp add: results_append [symmetric])
  ultimately show ?thesis using Some dr by auto
qed

lemma watch_shape: "\<forall>r\<in>set (results (watch w iters)). exactlyOne r \<or> carriesParseError r"
proof (induction w iters rule: watch.induct)
  case (3 w e iters)
  show ?case
    using 3 [of "fst (Duration (retryBackoff w))" "snd (Duration (retryBackoff w))"]
    by (simp add: case_prod_beta)
next
  case (4 w stream sc iters)
  obtain acts w1 x q where pe: "proxyEvents w stream sc = (acts, w1, x, q)"
    by (cases "proxyEvents w stream sc")
  note a = proxyEvents_shape [OF pe]
  show ?case
  proof (cases x)
    case (Broken e)
    show ?thesis
    proof (cases "ctxAfter sc")
      case None
      have ih: "\<forall>r\<in>set (results (watch w1 iters)). exactlyOne r \<or> carriesParseError r"
        using 4 [OF pe [symmetric] refl refl Broken None] .
      have "exactlyOne r \<or> carriesParseError r"
        if "r \<in> set (results (sendLate q
              (Println (Wrap e ''k8sresolver stream: Error on read and proxy Events. Retrying'')
               # watch w1 iters)))" for r
        using results_sendLate [OF that] ih a(2) by auto
      then show ?thesis using pe Broken None a(1) by (auto simp: results_append)
    next
      case (Some c)
      have "exactlyOne r \<or> carriesParseError r"
        if "r \<in> set (results (sendLate q ([] :: 'a action list)))" for r
        using results_sendLate [OF that] a(2) by auto
      then show ?thesis using pe Broken Some a(1) by (auto simp: results_append)
    qed
  qed (use a pe in \<open>simp_all add: results_append\<close>)
qed simp_all

text \<open>What the retry loop sees of \<open>proxyEvents\<close>: the deferred \<open>Close\<close> when it returns.\<close>

lemma proxyEvents_calls:
  assumes "proxyEvents w stream sc = (acts, w1, x, q)"
  shows "calls acts = (if x = Blocks then [] else [Close])"
proof -
  from proxyEvents_select [OF assms] obtain rs sig where "select sc rs sig = (acts, x, q)"
    by blast
  then show ?thesis
    by (auto simp: select_def calls_append calls_emits
        split: option.splits signal.splits nat.splits prod.splits)
qed

section \<open>The claims\<close>

text \<open>
  Claim C1, as amended. Every call of \<open>StartChangeStream\<close> in a run of \<open>watch\<close>, under every
  schedule, passes the target of the watcher and the resourceVersion of the most recent
  event that was parsed successfully before the call, or the initial
  \<open>lastSeenResourceVersion\<close> when no event was parsed yet. This holds for the first call and
  for every call after a stream termination error. The value passed is therefore zero only
  when that resourceVersion is itself zero.
\<close>

theorem restart_passes_last_parsed:
  assumes "watch w iters = pre @ StartChangeStream t v # post"
  shows "t = target w \<and> v = lastParsed (lastSeenResourceVersion w) pre"
  using assms
proof (induction w iters arbitrary: pre post rule: watch.induct)
  case (1 w)
  then show ?case by simp
next
  case (2 w c answer iters)
  then show ?case by simp
next
  case (3 w e iters)
  let ?w = "w\<lparr>retryBackoff := snd (Duration (retryBackoff w))\<rparr>"
  let ?p = "[StartChangeStream (target w) (lastSeenResourceVersion w),
             Println (Wrap e ''k8sresolver stream: Failed to do start stream''),
             Sleep (fst (Duration (retryBackoff w)))]"
  have eq: "?p @ watch ?w iters = pre @ StartChangeStream t v # post"
    using 3(2) by (simp split: prod.splits)
  show ?case
  proof (cases pre)
    case Nil
    with eq show ?thesis by simp
  next
    case (Cons a pre1)
    with eq have "a = StartChangeStream (target w) (lastSeenResourceVersion w)"
      and "[Println (Wrap e ''k8sresolver stream: Failed to do start stream''),
            Sleep (fst (Duration (retryBackoff w)))] @ watch ?w iters =
           pre1 @ StartChangeStream t v # post"
      by simp_all
    from split_after [OF this(2)] obtain pre2 where
      p: "pre1 = [Println (Wrap e ''k8sresolver stream: Failed to do start stream''),
            Sleep (fst (Duration (retryBackoff w)))] @ pre2"
      "watch ?w iters = pre2 @ StartChangeStream t v # post"
      by auto
    have "t = target ?w \<and> v = lastParsed (lastSeenResourceVersion ?w) pre2"
      by (rule 3(1) [OF _ p(2)]) (simp add: prod_eq_iff)
    then show ?thesis using Cons p(1) \<open>a = _\<close> by simp
  qed
next
  case (4 w stream sc iters)
  obtain acts w1 x q where pe: "proxyEvents w stream sc = (acts, w1, x, q)"
    by (cases "proxyEvents w stream sc")
  show ?case
  proof (cases pre)
    case Nil
    with 4(2) pe show ?thesis by simp
  next
    case (Cons a pre1)
    let ?cont = "(case ctxAfter sc of
                    Some c \<Rightarrow> []
                  | None \<Rightarrow>
                      Println
                        (Wrap (case x of Broken e \<Rightarrow> e)
                           ''k8sresolver stream: Error on read and proxy Events. Retrying'')
                      # watch w1 iters)"
    let ?tail = "(case x of Blocks \<Rightarrow> [] | Cancelled c \<Rightarrow> [] | Closed \<Rightarrow> []
                  | Broken e \<Rightarrow> sendLate q ?cont)"
    from Cons 4(2) pe have a: "a = StartChangeStream (target w) (lastSeenResourceVersion w)"
      and eq: "acts @ ?tail = pre1 @ StartChangeStream t v # post"
      by (simp_all split: ret.splits)
    from split_after [OF eq proxyEvents_no_Start(1) [OF pe]] obtain pre2 where
      p: "pre1 = acts @ pre2" "?tail = pre2 @ StartChangeStream t v # post"
      by auto
    show ?thesis
    proof (cases x)
      case Blocks
      with p(2) show ?thesis by simp
    next
      case (Cancelled c)
      with p(2) show ?thesis by simp
    next
      case Closed
      with p(2) show ?thesis by simp
    next
      case (Broken e)
      with p(2) have s: "sendLate q ?cont = pre2 @ StartChangeStream t v # post" by simp
      have late: "ep r = None" if "q = Some (d, r)" for d r
        using proxyEvents_late [of w stream sc acts w1 x d r] pe that by simp
      have "\<exists>pre' post'. ?cont = pre' @ StartChangeStream t v # post' \<and>
              (\<forall>v0. lastParsed v0 pre' = lastParsed v0 pre2)"
      proof (rule sendLate_split [OF s])
        fix d r assume "q = Some (d, r)"
        then show "ep r = None" by (rule late)
      qed
      then obtain pre' post' where
        c: "?cont = pre' @ StartChangeStream t v # post'"
        and l: "\<And>v0. lastParsed v0 pre' = lastParsed v0 pre2"
        by blast
      show ?thesis
      proof (cases "ctxAfter sc")
        case (Some c')
        with c show ?thesis by simp
      next
        case None
        with c Broken obtain pre3 where
          q: "pre' = Println (Wrap e ''k8sresolver stream: Error on read and proxy Events. Retrying'')
                     # pre3"
          "watch w1 iters = pre3 @ StartChangeStream t v # post'"
          by (cases pre') auto
        have "t = target w1 \<and> v = lastParsed (lastSeenResourceVersion w1) pre3"
          by (rule 4(1) [OF pe [symmetric] refl refl Broken None q(2)])
        moreover have "lastParsed (lastSeenResourceVersion w) pre =
                       lastParsed (lastSeenResourceVersion w1) pre2"
          using Cons a p(1) proxyEvents_lastParsed [OF pe] by (simp add: lastParsed_append)
        moreover have "lastParsed (lastSeenResourceVersion w1) pre2 =
                       lastParsed (lastSeenResourceVersion w1) pre3"
          using l [of "lastSeenResourceVersion w1"] q(1) by simp
        ultimately show ?thesis using proxyEvents_fixed [OF pe] by simp
      qed
    qed
  qed
qed

text \<open>
  A stream that breaks after the event of the test, and the reconnect, under the schedule
  in which nothing is late.
\<close>

theorem restart_passes_last_parsed_witness:
  "watch testWatcher
     [(None, Stream [(None, Got expectedEvent), (None, DecodeErr ErrUnexpectedEOF)] atOnce),
      (None, Stream [] atOnce)] =
   [StartChangeStream testTarget 0,
    Emit \<lparr>ep = Some expectedEvent, err = None\<rparr>,
    Close,
    Println (Wrap (Wrap ErrUnexpectedEOF ''Unexpected EOF during watch stream event decoding'')
                  ''k8sresolver stream: Error on read and proxy Events. Retrying'')]
   @ StartChangeStream testTarget 123 # []
   \<and> testTarget = target testWatcher
   \<and> (123 :: int) =
     lastParsed (lastSeenResourceVersion testWatcher)
       [StartChangeStream testTarget 0,
        Emit \<lparr>ep = Some expectedEvent, err = None\<rparr>,
        Close,
        Println (Wrap (Wrap ErrUnexpectedEOF ''Unexpected EOF during watch stream event decoding'')
                      ''k8sresolver stream: Error on read and proxy Events. Retrying'')]"
  using restart_passes_last_parsed [of testWatcher
      "[(None, Stream [(None, Got expectedEvent), (None, DecodeErr ErrUnexpectedEOF)] atOnce),
        (None, Stream [] atOnce)]"
      "[StartChangeStream testTarget 0,
        Emit \<lparr>ep = Some expectedEvent, err = None\<rparr>,
        Close,
        Println (Wrap (Wrap ErrUnexpectedEOF ''Unexpected EOF during watch stream event decoding'')
                      ''k8sresolver stream: Error on read and proxy Events. Retrying'')]"
      testTarget 123 "[]"]
  by (simp add: evals)

text \<open>
  The claim as stated fails: the watcher starts at resourceVersion 7, an event with
  resourceVersion "0" is parsed successfully, the stream ends, and the next call passes 0.
\<close>

theorem restart_passes_zero:
  "parsed \<lparr>ep = Some (versioned added ''0''), err = None\<rparr> = Some 0
   \<and> watch (testWatcher\<lparr>lastSeenResourceVersion := 7\<rparr>)
     [(None, Stream [(None, Got (versioned added ''0'')), (None, DecodeErr EOF)] atOnce),
      (None, Stream [] atOnce)] =
   [StartChangeStream testTarget 7,
    Emit \<lparr>ep = Some (versioned added ''0''), err = None\<rparr>,
    Close,
    Println (Wrap (Wrap EOF ''EOF during watch stream event decoding'')
                  ''k8sresolver stream: Error on read and proxy Events. Retrying''),
    StartChangeStream testTarget 0]"
  by (simp add: evals parsed_def)

text \<open>
  Claim C2, as amended. Every result that a run of \<open>watch\<close> sends on \<open>eventsCh\<close>, under
  every schedule, has exactly one of its two fields populated, except the result for an
  event of a known type whose resourceVersion fails to parse: that one carries both the
  event and the parse error. No result has both fields absent.
\<close>

theorem result_fields:
  assumes "r \<in> set (results (watch w iters))"
  shows "(exactlyOne r \<or> carriesParseError r) \<and> (ep r \<noteq> None \<or> err r \<noteq> None)"
proof -
  have "exactlyOne r \<or> carriesParseError r"
    using watch_shape [of w iters] assms by blast
  then show ?thesis
    by (auto simp: exactlyOne_def carriesParseError_def split: option.splits)
qed

theorem result_fields_witness:
  "\<lparr>ep = None, err = Some (Errorf ''Got invalid watch event type: not-supported'')\<rparr>
     \<in> set (results (watch testWatcher [(None, Stream [(None, Got wrongEvent)] atOnce)]))
   \<and> exactlyOne \<lparr>ep = None, err = Some (Errorf ''Got invalid watch event type: not-supported'')\<rparr>"
  using result_fields [of
      "\<lparr>ep = None, err = Some (Errorf ''Got invalid watch event type: not-supported'')\<rparr>"
      testWatcher "[(None, Stream [(None, Got wrongEvent)] atOnce)]"]
  by (simp add: evals exactlyOne_def carriesParseError_def)

text \<open>
  The claim as stated fails: the result for an ADDED event with resourceVersion "abc" has
  the event and the error.
\<close>

theorem parse_error_result_has_both_fields:
  "results (watch testWatcher [(None, Stream [(None, Got (versioned added ''abc''))] atOnce)]) =
     [\<lparr>ep = Some (versioned added ''abc''),
       err = Some (NumError ''Atoi'' ''abc'' ErrSyntax)\<rparr>]
   \<and> \<not> exactlyOne \<lparr>ep = Some (versioned added ''abc''),
                      err = Some (NumError ''Atoi'' ''abc'' ErrSyntax)\<rparr>"
  by (simp add: evals exactlyOne_def)

text \<open>
  Claim C3, as amended. A decode failure that the goroutine meets with a live context, at
  any point of a connection that was read without failure while the \<open>select\<close> waits, ends
  the decode phase: the goroutine hands the wrapped error to the retry loop on
  \<open>connectionErrCh\<close>, \<open>proxyEvents\<close> closes the stream and returns that error, and the
  retry loop, with the context still live, prints it and calls \<open>StartChangeStream\<close> again
  with the \<open>lastSeenResourceVersion\<close> reached. For io.EOF and io.ErrUnexpectedEOF nothing is
  sent on \<open>eventsCh\<close>. For every other decode error exactly one result is sent, with the
  wrapped error and no event; the goroutine sends it after it has handed the error over, so
  under the schedule it comes before the \<open>Close\<close> or after any number of the actions that
  follow: the \<open>Close\<close>, the print, the next \<open>StartChangeStream\<close> and what comes after.
\<close>

theorem decode_failure_ends_stream:
  assumes "proxyEvents w pre sc = (acts, w1, Blocks, q)"
  shows "proxyEvents w (pre @ (None, DecodeErr e) # stream) sc =
     (if e = EOF then
        (acts @ [Close], w1, Broken (Wrap e ''EOF during watch stream event decoding''), None)
      else if e = ErrUnexpectedEOF then
        (acts @ [Close], w1,
         Broken (Wrap e ''Unexpected EOF during watch stream event decoding''), None)
      else
        (case delay sc of
           0 \<Rightarrow>
             (acts @
              [Emit \<lparr>ep = None,
                     err = Some (Wrap (Wrap e ''Unable to decode an event from the watch stream'')
                                      ''Unable to decode an event from the watch stream'')\<rparr>,
               Close],
              w1, Broken (Wrap e ''Unable to decode an event from the watch stream''), None)
         | Suc d \<Rightarrow>
             (acts @ [Close], w1,
              Broken (Wrap e ''Unable to decode an event from the watch stream''),
              Some (d, \<lparr>ep = None,
                        err = Some (Wrap (Wrap e ''Unable to decode an event from the watch stream'')
                                         ''Unable to decode an event from the watch stream'')\<rparr>))))
   \<and> (ctxAfter sc = None \<longrightarrow>
        watch w ((None, Stream (pre @ (None, DecodeErr e) # stream) sc) # (None, answer) # iters) =
          StartChangeStream (target w) (lastSeenResourceVersion w) # acts @
          sendLate
            (if e = EOF \<or> e = ErrUnexpectedEOF then None
             else Some (delay sc,
                        \<lparr>ep = None,
                         err = Some (Wrap (Wrap e ''Unable to decode an event from the watch stream'')
                                          ''Unable to decode an event from the watch stream'')\<rparr>))
            (Close
             # Println
                 (Wrap (if e = EOF then Wrap e ''EOF during watch stream event decoding''
                        else if e = ErrUnexpectedEOF then
                          Wrap e ''Unexpected EOF during watch stream event decoding''
                        else Wrap e ''Unable to decode an event from the watch stream'')
                    ''k8sresolver stream: Error on read and proxy Events. Retrying'')
             # StartChangeStream (target w) (lastSeenResourceVersion w1)
             # tl (watch w1 ((None, answer) # iters))))"
proof (intro conjI impI)
  have wk: "wake sc = None" using assms by (auto simp: proxyEvents_Blocks)
  show eq: "proxyEvents w (pre @ (None, DecodeErr e) # stream) sc =
     (if e = EOF then
        (acts @ [Close], w1, Broken (Wrap e ''EOF during watch stream event decoding''), None)
      else if e = ErrUnexpectedEOF then
        (acts @ [Close], w1,
         Broken (Wrap e ''Unexpected EOF during watch stream event decoding''), None)
      else
        (case delay sc of
           0 \<Rightarrow>
             (acts @
              [Emit \<lparr>ep = None,
                     err = Some (Wrap (Wrap e ''Unable to decode an event from the watch stream'')
                                      ''Unable to decode an event from the watch stream'')\<rparr>,
               Close],
              w1, Broken (Wrap e ''Unable to decode an event from the watch stream''), None)
         | Suc d \<Rightarrow>
             (acts @ [Close], w1,
              Broken (Wrap e ''Unable to decode an event from the watch stream''),
              Some (d, \<lparr>ep = None,
                        err = Some (Wrap (Wrap e ''Unable to decode an event from the watch stream'')
                                         ''Unable to decode an event from the watch stream'')\<rparr>))))"
    by (simp add: proxyEvents_append [OF assms] proxyEvents_live_DecodeErr [OF wk]
        split: nat.splits)
  assume live: "ctxAfter sc = None"
  have t: "target w1 = target w" using proxyEvents_fixed [OF assms] by simp
  have hd: "watch w1 ((None, answer) # iters) =
      StartChangeStream (target w) (lastSeenResourceVersion w1)
      # tl (watch w1 ((None, answer) # iters))"
    using watch_live_hd [of w1 answer iters] by (simp only: t)
  obtain acts' e' q' where
    b: "proxyEvents w (pre @ (None, DecodeErr e) # stream) sc = (acts', w1, Broken e', q')"
    using eq by (auto split: if_splits nat.splits)
  have "watch w ((None, Stream (pre @ (None, DecodeErr e) # stream) sc) # (None, answer) # iters) =
      StartChangeStream (target w) (lastSeenResourceVersion w) # acts' @
      sendLate q'
        (Println (Wrap e' ''k8sresolver stream: Error on read and proxy Events. Retrying'')
         # watch w1 ((None, answer) # iters))"
    using watch_Broken [OF b, of "(None, answer) # iters"] live by simp
  also have "watch w1 ((None, answer) # iters) =
      StartChangeStream (target w) (lastSeenResourceVersion w1)
      # tl (watch w1 ((None, answer) # iters))"
    by (rule hd)
  finally have w:
    "watch w ((None, Stream (pre @ (None, DecodeErr e) # stream) sc) # (None, answer) # iters) =
      StartChangeStream (target w) (lastSeenResourceVersion w) # acts' @
      sendLate q'
        (Println (Wrap e' ''k8sresolver stream: Error on read and proxy Events. Retrying'')
         # StartChangeStream (target w) (lastSeenResourceVersion w1)
         # tl (watch w1 ((None, answer) # iters)))" .
  show "watch w ((None, Stream (pre @ (None, DecodeErr e) # stream) sc) # (None, answer) # iters) =
          StartChangeStream (target w) (lastSeenResourceVersion w) # acts @
          sendLate
            (if e = EOF \<or> e = ErrUnexpectedEOF then None
             else Some (delay sc,
                        \<lparr>ep = None,
                         err = Some (Wrap (Wrap e ''Unable to decode an event from the watch stream'')
                                          ''Unable to decode an event from the watch stream'')\<rparr>))
            (Close
             # Println
                 (Wrap (if e = EOF then Wrap e ''EOF during watch stream event decoding''
                        else if e = ErrUnexpectedEOF then
                          Wrap e ''Unexpected EOF during watch stream event decoding''
                        else Wrap e ''Unable to decode an event from the watch stream'')
                    ''k8sresolver stream: Error on read and proxy Events. Retrying'')
             # StartChangeStream (target w) (lastSeenResourceVersion w1)
             # tl (watch w1 ((None, answer) # iters)))"
    unfolding w using b eq
    by (auto simp: sendLate_def split: if_splits nat.splits)
qed

text \<open>
  The first step of streamer_test.go after one event: undecodable bytes make \<open>Decode\<close> fail
  with an error that is neither of the two sentinels. Under this schedule the result is
  received when the stream has been closed, before the retry loop prints.
\<close>

theorem decode_failure_ends_stream_witness:
  "proxyEvents testWatcher [(None, Got expectedEvent)] \<lparr>wake = None, delay = 1, ctxAfter = None\<rparr> =
     ([Emit \<lparr>ep = Some expectedEvent, err = None\<rparr>],
      testWatcher\<lparr>lastSeenResourceVersion := 123\<rparr>, Blocks, None)
   \<and> ctxAfter \<lparr>wake = None, delay = 1, ctxAfter = None\<rparr> = None
   \<and> watch testWatcher
       [(None, Stream ([(None, Got expectedEvent)]
                       @ (None, DecodeErr (DecodeError ''invalid character'')) # [])
                 \<lparr>wake = None, delay = 1, ctxAfter = None\<rparr>),
        (None, Stream [] atOnce)] =
     [StartChangeStream testTarget 0,
      Emit \<lparr>ep = Some expectedEvent, err = None\<rparr>,
      Close,
      Emit \<lparr>ep = None,
            err = Some (Wrap (Wrap (DecodeError ''invalid character'')
                                   ''Unable to decode an event from the watch stream'')
                             ''Unable to decode an event from the watch stream'')\<rparr>,
      Println (Wrap (Wrap (DecodeError ''invalid character'')
                          ''Unable to decode an event from the watch stream'')
                    ''k8sresolver stream: Error on read and proxy Events. Retrying''),
      StartChangeStream testTarget 123]"
  using decode_failure_ends_stream [of testWatcher "[(None, Got expectedEvent)]"
      "\<lparr>wake = None, delay = 1, ctxAfter = None\<rparr>" _ _ _
      "DecodeError ''invalid character''" "[]" "Stream [] atOnce" "[]"]
  by (simp add: evals)

text \<open>
  The claim as stated fails twice. On io.EOF the stream is closed and the watcher
  reconnects, and no result has been sent. On undecodable bytes the result is sent after
  the decode phase has ended: under this schedule the stream is closed, the error printed
  and \<open>StartChangeStream\<close> called again before the result is received.
\<close>

theorem eof_emits_nothing_other_result_after_reconnect:
  "watch testWatcher [(None, Stream [(None, DecodeErr EOF)] atOnce), (None, Stream [] atOnce)] =
     [StartChangeStream testTarget 0,
      Close,
      Println (Wrap (Wrap EOF ''EOF during watch stream event decoding'')
                    ''k8sresolver stream: Error on read and proxy Events. Retrying''),
      StartChangeStream testTarget 0]
   \<and> watch testWatcher
       [(None, Stream [(None, DecodeErr (DecodeError ''invalid character''))]
                 \<lparr>wake = None, delay = 3, ctxAfter = None\<rparr>),
        (None, Stream [] atOnce)] =
     [StartChangeStream testTarget 0,
      Close,
      Println (Wrap (Wrap (DecodeError ''invalid character'')
                          ''Unable to decode an event from the watch stream'')
                    ''k8sresolver stream: Error on read and proxy Events. Retrying''),
      StartChangeStream testTarget 0,
      Emit \<lparr>ep = None,
            err = Some (Wrap (Wrap (DecodeError ''invalid character'')
                                   ''Unable to decode an event from the watch stream'')
                             ''Unable to decode an event from the watch stream'')\<rparr>]"
  by (simp add: evals)

text \<open>
  Claim C4. On a connection that is being read while the \<open>select\<close> waits, a decoded event of
  type ADDED, MODIFIED, DELETED or ERROR is answered as follows. If \<open>strconv.Atoi\<close> fails on
  its resourceVersion, one result carrying that parse error is sent, the watcher is left as
  it was, and the reads that follow are taken from the same stream: no \<open>Close\<close> and no
  \<open>StartChangeStream\<close> comes in between. If it succeeds, \<open>lastSeenResourceVersion\<close>
  becomes the parsed value and one result carrying the event and no error is sent.
\<close>

theorem known_event_parse:
  assumes "proxyEvents w pre sc = (acts, w1, Blocks, q)"
    and "knownType got"
  shows "proxyEvents w (pre @ (c, Got got) # stream) sc =
     (case Atoi (version got) of
        Inl e \<Rightarrow>
          (case proxyEvents w1 stream sc of
             (acts2, w2, x, q2) \<Rightarrow>
               (acts @ Emit \<lparr>ep = Some got, err = Some e\<rparr> # acts2, w2, x, q2))
      | Inr rv \<Rightarrow>
          (case proxyEvents (w1\<lparr>lastSeenResourceVersion := rv\<rparr>) stream sc of
             (acts2, w2, x, q2) \<Rightarrow>
               (acts @ Emit \<lparr>ep = Some got, err = None\<rparr> # acts2, w2, x, q2)))"
proof -
  have wk: "wake sc = None" using assms(1) by (auto simp: proxyEvents_Blocks)
  show ?thesis
    using assms(2)
    by (simp add: proxyEvents_append [OF assms(1)] proxyEvents_Got [OF wk]
        split: prod.splits sum.splits)
qed

text \<open>
  An event that parses, one whose resourceVersion does not, and one more that parses, on
  one connection.
\<close>

theorem known_event_parse_witness:
  "proxyEvents testWatcher [(None, Got expectedEvent)] atOnce =
     ([Emit \<lparr>ep = Some expectedEvent, err = None\<rparr>],
      testWatcher\<lparr>lastSeenResourceVersion := 123\<rparr>, Blocks, None)
   \<and> knownType (versioned modified ''abc'')
   \<and> proxyEvents testWatcher
       ([(None, Got expectedEvent)] @ (None, Got (versioned modified ''abc''))
        # [(None, Got (versioned deleted ''124''))]) atOnce =
     ([Emit \<lparr>ep = Some expectedEvent, err = None\<rparr>,
       Emit \<lparr>ep = Some (versioned modified ''abc''),
             err = Some (NumError ''Atoi'' ''abc'' ErrSyntax)\<rparr>,
       Emit \<lparr>ep = Some (versioned deleted ''124''), err = None\<rparr>],
      testWatcher\<lparr>lastSeenResourceVersion := 124\<rparr>, Blocks, None)"
  using known_event_parse [of testWatcher "[(None, Got expectedEvent)]" atOnce _ _ _
      "versioned modified ''abc''" None "[(None, Got (versioned deleted ''124''))]"]
  by (simp add: evals)

text \<open>
  Claim C5, as amended. While the goroutine reads a stream, \<open>lastSeenResourceVersion\<close>
  after a decoded event is the resourceVersion of that event when the event has a known
  type and the resourceVersion parses, whether that value is above or below the one held
  before; it is the value held before when the resourceVersion fails to parse or the type
  is unknown. So an event whose resourceVersion fails to parse never changes it.
\<close>

theorem last_seen_follows_parsed:
  assumes "decodeLoop w pre = (rs, w1, Pending)"
  shows "seenAfter w (pre @ (c, Got got) # stream) (length pre) = lastSeenResourceVersion w1 \<and>
         seenAfter w (pre @ (c, Got got) # stream) (Suc (length pre)) =
           (if knownType got then
              (case Atoi (version got) of
                 Inl e \<Rightarrow> lastSeenResourceVersion w1
               | Inr rv \<Rightarrow> rv)
            else lastSeenResourceVersion w1)"
proof -
  have "take (Suc (length pre)) (pre @ (c, Got got) # stream) = pre @ [(c, Got got)]"
    by simp
  then show ?thesis
    using decodeLoop_append [OF assms, of "[(c, Got got)]"] assms
    by (simp add: seenAfter_def knownType_def version_def emit_def split: sum.splits)
qed

theorem last_seen_follows_parsed_witness:
  "decodeLoop testWatcher [(None, Got expectedEvent)] =
     ([\<lparr>ep = Some expectedEvent, err = None\<rparr>],
      testWatcher\<lparr>lastSeenResourceVersion := 123\<rparr>, Pending)
   \<and> seenAfter testWatcher
       ([(None, Got expectedEvent)] @ (None, Got (versioned modified ''7'')) # []) (Suc 0) = 123
   \<and> seenAfter testWatcher
       ([(None, Got expectedEvent)] @ (None, Got (versioned modified ''7'')) # [])
       (Suc (Suc 0)) = 7"
  using last_seen_follows_parsed [of testWatcher "[(None, Got expectedEvent)]" _ _ None
      "versioned modified ''7''" "[]"]
  by (simp add: evals)

text \<open>
  The claim as stated fails: after the events with resourceVersion "5" and "3", both
  parsed successfully, \<open>lastSeenResourceVersion\<close> has gone from 0 to 5 and down to 3.
\<close>

theorem last_seen_decreases:
  "versions testWatcher
     [(None, Got (versioned added ''5'')), (None, Got (versioned modified ''3''))] = [0, 5, 3]
   \<and> \<not> sorted (versions testWatcher
     [(None, Got (versioned added ''5'')), (None, Got (versioned modified ''3''))])"
  by (simp add: evals versions_def seenAfter_def)

text \<open>
  Claim C6. On a connection that is being read while the \<open>select\<close> waits, a decoded event
  whose type is none of ADDED, MODIFIED, DELETED and ERROR is answered by one result that
  carries the invalid-event-type error and no event; the watcher is left as it was, and the
  reads that follow are taken from the same stream.
\<close>

theorem unknown_event_type:
  assumes "proxyEvents w pre sc = (acts, w1, Blocks, q)"
    and "\<not> knownType got"
  shows "proxyEvents w (pre @ (c, Got got) # stream) sc =
     (case proxyEvents w1 stream sc of
        (acts2, w2, x, q2) \<Rightarrow>
          (acts @ Emit \<lparr>ep = None,
                         err = Some (Errorf (''Got invalid watch event type: '' @ Type got))\<rparr>
                  # acts2,
           w2, x, q2))"
proof -
  have wk: "wake sc = None" using assms(1) by (auto simp: proxyEvents_Blocks)
  show ?thesis
    using assms(2)
    by (simp add: proxyEvents_append [OF assms(1)] proxyEvents_Got [OF wk] split: prod.splits)
qed

theorem unknown_event_type_witness:
  "proxyEvents testWatcher [(None, Got expectedEvent)] atOnce =
     ([Emit \<lparr>ep = Some expectedEvent, err = None\<rparr>],
      testWatcher\<lparr>lastSeenResourceVersion := 123\<rparr>, Blocks, None)
   \<and> \<not> knownType wrongEvent
   \<and> proxyEvents testWatcher
       ([(None, Got expectedEvent)] @ (None, Got wrongEvent)
        # [(None, Got (versioned modified ''124''))]) atOnce =
     ([Emit \<lparr>ep = Some expectedEvent, err = None\<rparr>,
       Emit \<lparr>ep = None, err = Some (Errorf ''Got invalid watch event type: not-supported'')\<rparr>,
       Emit \<lparr>ep = Some (versioned modified ''124''), err = None\<rparr>],
      testWatcher\<lparr>lastSeenResourceVersion := 124\<rparr>, Blocks, None)"
  using unknown_event_type [of testWatcher "[(None, Got expectedEvent)]" atOnce _ _ _ wrongEvent
      None "[(None, Got (versioned modified ''124''))]"]
  by (simp add: evals)

text \<open>
  Claim C7. When \<open>StartChangeStream\<close> returns an error, the watcher prints the error, sleeps
  for one backoff duration and goes on with the retry loop: nothing is sent on \<open>eventsCh\<close>.
  What the caller receives in the whole run is what it would receive had the failed attempt
  not taken place. When the context is still live after the sleep, the next action is a call
  of \<open>StartChangeStream\<close> with the same target and resourceVersion.
\<close>

theorem connect_failure_backs_off:
  "watch w ((None, ConnFail e) # iters) =
     StartChangeStream (target w) (lastSeenResourceVersion w)
     # Println (Wrap e ''k8sresolver stream: Failed to do start stream'')
     # Sleep (attempts (retryBackoff w))
     # watch (w\<lparr>retryBackoff := (retryBackoff w)\<lparr>attempts := attempts (retryBackoff w) + 1\<rparr>\<rparr>)
         iters
   \<and> results (watch w ((None, ConnFail e) # iters)) = results (watch w iters)
   \<and> (\<exists>rest. watch w ((None, ConnFail e) # (None, answer) # iters) =
        [StartChangeStream (target w) (lastSeenResourceVersion w),
         Println (Wrap e ''k8sresolver stream: Failed to do start stream''),
         Sleep (attempts (retryBackoff w)),
         StartChangeStream (target w) (lastSeenResourceVersion w)] @ rest)"
proof (intro conjI)
  show "watch w ((None, ConnFail e) # iters) =
     StartChangeStream (target w) (lastSeenResourceVersion w)
     # Println (Wrap e ''k8sresolver stream: Failed to do start stream'')
     # Sleep (attempts (retryBackoff w))
     # watch (w\<lparr>retryBackoff := (retryBackoff w)\<lparr>attempts := attempts (retryBackoff w) + 1\<rparr>\<rparr>)
         iters"
    by (simp add: Duration_def)
  show "results (watch w ((None, ConnFail e) # iters)) = results (watch w iters)"
    by (simp add: Duration_def results_watch_backoff)
  let ?w = "w\<lparr>retryBackoff := (retryBackoff w)\<lparr>attempts := attempts (retryBackoff w) + 1\<rparr>\<rparr>"
  have "watch w ((None, ConnFail e) # (None, answer) # iters) =
     StartChangeStream (target w) (lastSeenResourceVersion w)
     # Println (Wrap e ''k8sresolver stream: Failed to do start stream'')
     # Sleep (attempts (retryBackoff w))
     # watch ?w ((None, answer) # iters)"
    by (simp add: Duration_def)
  also have "watch ?w ((None, answer) # iters) =
     StartChangeStream (target w) (lastSeenResourceVersion w)
     # tl (watch ?w ((None, answer) # iters))"
    using watch_live_hd [of ?w answer iters] by simp
  finally have "watch w ((None, ConnFail e) # (None, answer) # iters) =
        [StartChangeStream (target w) (lastSeenResourceVersion w),
         Println (Wrap e ''k8sresolver stream: Failed to do start stream''),
         Sleep (attempts (retryBackoff w)),
         StartChangeStream (target w) (lastSeenResourceVersion w)] @
        tl (watch ?w ((None, answer) # iters))"
    by simp
  then show "\<exists>rest. watch w ((None, ConnFail e) # (None, answer) # iters) =
        [StartChangeStream (target w) (lastSeenResourceVersion w),
         Println (Wrap e ''k8sresolver stream: Failed to do start stream''),
         Sleep (attempts (retryBackoff w)),
         StartChangeStream (target w) (lastSeenResourceVersion w)] @ rest"
    by (rule exI)
qed

text \<open>Two failed connections, then one that delivers the event of the test.\<close>

theorem connect_failure_backs_off_witness:
  "watch testWatcher
     [(None, ConnFail (DecodeError ''connection refused'')),
      (None, ConnFail (DecodeError ''connection refused'')),
      (None, Stream [(None, Got expectedEvent)] atOnce)] =
   [StartChangeStream testTarget 0,
    Println (Wrap (DecodeError ''connection refused'')
                  ''k8sresolver stream: Failed to do start stream''),
    Sleep 0,
    StartChangeStream testTarget 0,
    Println (Wrap (DecodeError ''connection refused'')
                  ''k8sresolver stream: Failed to do start stream''),
    Sleep 1,
    StartChangeStream testTarget 0,
    Emit \<lparr>ep = Some expectedEvent, err = None\<rparr>]"
  using connect_failure_backs_off [of testWatcher "DecodeError ''connection refused''"
      "[(None, ConnFail (DecodeError ''connection refused'')),
        (None, Stream [(None, Got expectedEvent)] atOnce)]"]
  by (simp add: evals)

text \<open>
  Claim C8, as amended. When a connected stream ends with a stream termination error while
  the context is live, the watcher closes the stream, prints the error and reconnects at
  once: it does not sleep, since the backoff is waited only after a failed
  \<open>StartChangeStream\<close>. The reconnect is exactly one call of \<open>StartChangeStream\<close>, and it
  carries the resourceVersion of the most recent successfully parsed event. This holds
  under every schedule: a result that is still to be sent changes none of the calls.
\<close>

theorem broken_stream_reconnects_at_once:
  assumes "proxyEvents w stream sc = (acts, w1, Broken e, q)"
    and "ctxAfter sc = None"
  shows "watch w ((None, Stream stream sc) # (None, answer) # iters) =
      StartChangeStream (target w) (lastSeenResourceVersion w) # acts @
      sendLate q
        ([Println (Wrap e ''k8sresolver stream: Error on read and proxy Events. Retrying''),
          StartChangeStream (target w) (lastParsed (lastSeenResourceVersion w) acts)] @
         tl (watch w1 ((None, answer) # iters)))
    \<and> calls (watch w ((None, Stream stream sc) # (None, answer) # iters)) =
      [StartChangeStream (target w) (lastSeenResourceVersion w),
       Close,
       Println (Wrap e ''k8sresolver stream: Error on read and proxy Events. Retrying''),
       StartChangeStream (target w) (lastParsed (lastSeenResourceVersion w) acts)] @
      calls (tl (watch w1 ((None, answer) # iters)))
    \<and> filter isSleep acts = [] \<and> filter isStart acts = [] \<and> last acts = Close"
proof -
  have hd: "watch w1 ((None, answer) # iters) =
      StartChangeStream (target w) (lastParsed (lastSeenResourceVersion w) acts) #
      tl (watch w1 ((None, answer) # iters))"
    using watch_live_hd [of w1 answer iters] proxyEvents_fixed [OF assms(1)]
      proxyEvents_lastParsed [OF assms(1)] by simp
  have "watch w ((None, Stream stream sc) # (None, answer) # iters) =
      StartChangeStream (target w) (lastSeenResourceVersion w) # acts @
      sendLate q
        (Println (Wrap e ''k8sresolver stream: Error on read and proxy Events. Retrying'')
         # watch w1 ((None, answer) # iters))"
    using watch_Broken [OF assms(1), of "(None, answer) # iters"] assms(2) by simp
  also have "Println (Wrap e ''k8sresolver stream: Error on read and proxy Events. Retrying'')
         # watch w1 ((None, answer) # iters) =
        [Println (Wrap e ''k8sresolver stream: Error on read and proxy Events. Retrying''),
          StartChangeStream (target w) (lastParsed (lastSeenResourceVersion w) acts)] @
         tl (watch w1 ((None, answer) # iters))"
    using hd by simp
  finally have t: "watch w ((None, Stream stream sc) # (None, answer) # iters) =
      StartChangeStream (target w) (lastSeenResourceVersion w) # acts @
      sendLate q
        ([Println (Wrap e ''k8sresolver stream: Error on read and proxy Events. Retrying''),
          StartChangeStream (target w) (lastParsed (lastSeenResourceVersion w) acts)] @
         tl (watch w1 ((None, answer) # iters)))" .
  have c: "calls (watch w ((None, Stream stream sc) # (None, answer) # iters)) =
      [StartChangeStream (target w) (lastSeenResourceVersion w),
       Close,
       Println (Wrap e ''k8sresolver stream: Error on read and proxy Events. Retrying''),
       StartChangeStream (target w) (lastParsed (lastSeenResourceVersion w) acts)] @
      calls (tl (watch w1 ((None, answer) # iters)))"
    unfolding t using proxyEvents_calls [OF assms(1)]
    by (simp add: calls_append calls_sendLate)
  have "last acts = Close"
    using proxyEvents_select [OF assms(1)] select_Close by blast
  with t c show ?thesis
    using proxyEvents_no_Start(2,3) [OF assms(1)] by simp
qed

text \<open>
  The stream breaks after the event of the test; the next connection delivers one more
  event.
\<close>

theorem broken_stream_reconnects_at_once_witness:
  "proxyEvents testWatcher [(None, Got expectedEvent), (None, DecodeErr ErrUnexpectedEOF)] atOnce =
     ([Emit \<lparr>ep = Some expectedEvent, err = None\<rparr>, Close],
      testWatcher\<lparr>lastSeenResourceVersion := 123\<rparr>,
      Broken (Wrap ErrUnexpectedEOF ''Unexpected EOF during watch stream event decoding''), None)
   \<and> ctxAfter atOnce = None
   \<and> watch testWatcher
       [(None, Stream [(None, Got expectedEvent), (None, DecodeErr ErrUnexpectedEOF)] atOnce),
        (None, Stream [(None, Got (versioned deleted ''124''))] atOnce)] =
     [StartChangeStream testTarget 0,
      Emit \<lparr>ep = Some expectedEvent, err = None\<rparr>,
      Close,
      Println (Wrap (Wrap ErrUnexpectedEOF ''Unexpected EOF during watch stream event decoding'')
                    ''k8sresolver stream: Error on read and proxy Events. Retrying''),
      StartChangeStream testTarget 123,
      Emit \<lparr>ep = Some (versioned deleted ''124''), err = None\<rparr>]"
  using broken_stream_reconnects_at_once [of testWatcher
      "[(None, Got expectedEvent), (None, DecodeErr ErrUnexpectedEOF)]" atOnce _ _ _ _
      "Stream [(None, Got (versioned deleted ''124''))] atOnce" "[]"]
  by (simp add: evals)

text \<open>
  The claim as stated fails: the stream breaks after one event, and the trace up to the
  reconnect has no \<open>Sleep\<close>.
\<close>

theorem no_backoff_after_broken_stream:
  "watch testWatcher
     [(None, Stream [(None, Got expectedEvent), (None, DecodeErr ErrUnexpectedEOF)] atOnce),
      (None, Stream [] atOnce)] =
   [StartChangeStream testTarget 0,
    Emit \<lparr>ep = Some expectedEvent, err = None\<rparr>,
    Close,
    Println (Wrap (Wrap ErrUnexpectedEOF ''Unexpected EOF during watch stream event decoding'')
                  ''k8sresolver stream: Error on read and proxy Events. Retrying''),
    StartChangeStream testTarget 123]
   \<and> filter isSleep (watch testWatcher
     [(None, Stream [(None, Got expectedEvent), (None, DecodeErr ErrUnexpectedEOF)] atOnce),
      (None, Stream [] atOnce)]) = []"
  by (simp add: evals)




text \<open>
  Claim C10. Under every schedule, \<open>proxyEvents\<close> returns exactly when the \<open>select\<close> takes
  \<open>ctx.Done()\<close> or a read fails: by cancellation, or with the error of a broken stream (end
  of stream or any other decode error). Whenever it returns its trace has exactly one
  \<open>Close\<close>, and while it does not return there is none. When it returns the error of a
  broken stream, \<open>Close\<close> is the last thing it does, and in the trace of \<open>watch\<close> the
  \<open>Close\<close> comes before the retry loop prints the error and goes on to connect again.
\<close>

theorem stream_closed_on_return:
  assumes "proxyEvents w stream sc = (acts, w1, x, q)"
  shows "filter (\<lambda>a. a = Close) acts = (if x = Blocks then [] else [Close]) \<and>
         ((\<exists>e. x = Broken e) \<longrightarrow> last acts = Close) \<and>
         (x = Blocks \<longleftrightarrow> wake sc = None \<and> (\<forall>r\<in>set stream. \<exists>got. snd r = Got got)) \<and>
         (\<forall>e. x = Broken e \<and> ctxAfter sc = None \<longrightarrow>
            calls (watch w ((None, Stream stream sc) # iters)) =
              [StartChangeStream (target w) (lastSeenResourceVersion w), Close,
               Println (Wrap e ''k8sresolver stream: Error on read and proxy Events. Retrying'')]
              @ calls (watch w1 iters))"
proof -
  obtain rs sig where "select sc rs sig = (acts, x, q)"
    using proxyEvents_select [OF assms] by blast
  then have "filter (\<lambda>a. a = Close) acts = (if x = Blocks then [] else [Close]) \<and>
         ((\<exists>e. x = Broken e) \<longrightarrow> last acts = Close)"
    by (rule select_Close)
  moreover have "x = Blocks \<longleftrightarrow> wake sc = None \<and> (\<forall>r\<in>set stream. \<exists>got. snd r = Got got)"
    by (rule proxyEvents_returns [OF assms])
  moreover have "calls (watch w ((None, Stream stream sc) # iters)) =
              [StartChangeStream (target w) (lastSeenResourceVersion w), Close,
               Println (Wrap e ''k8sresolver stream: Error on read and proxy Events. Retrying'')]
              @ calls (watch w1 iters)"
    if "x = Broken e" "ctxAfter sc = None" for e
    using that assms proxyEvents_calls [OF assms]
    by (simp add: calls_append calls_sendLate)
  ultimately show ?thesis by blast
qed

theorem stream_closed_on_return_witness:
  "proxyEvents testWatcher [(None, Got expectedEvent), (None, DecodeErr EOF)] atOnce =
     ([Emit \<lparr>ep = Some expectedEvent, err = None\<rparr>, Close],
      testWatcher\<lparr>lastSeenResourceVersion := 123\<rparr>,
      Broken (Wrap EOF ''EOF during watch stream event decoding''), None)
   \<and> filter (\<lambda>a. a = Close)
       [Emit \<lparr>ep = Some expectedEvent, err = None\<rparr>, (Close :: (string \<times> string) action)] =
     [Close]
   \<and> last [Emit \<lparr>ep = Some expectedEvent, err = None\<rparr>, (Close :: (string \<times> string) action)] =
     Close"
  using stream_closed_on_return [of testWatcher
      "[(None, Got expectedEvent), (None, DecodeErr EOF)]" atOnce
      "[Emit \<lparr>ep = Some expectedEvent, err = None\<rparr>, Close]"
      "testWatcher\<lparr>lastSeenResourceVersion := 123\<rparr>"
      "Broken (Wrap EOF ''EOF during watch stream event decoding'')" None "[]"]
  by (simp add: evals)

end
